theory Spec2Isabelle
  imports Complex_Main
begin

section \<open>Data model of the LightPainter component\<close>

text \<open>
  The component keeps its data in React state variables and refs.  A JavaScript
  \<^verbatim>\<open>number\<close> that holds a coordinate, a pressure or a size is read as a real
  number: the arithmetic of the source is interpreted exactly, the rounding of IEEE
  doubles is outside the model.  Counts, indices, \<^verbatim>\<open>Date.now()\<close> readings and the
  sampling interval only ever hold integers and are modelled as \<open>nat\<close> or \<open>int\<close>.
  The fields \<^verbatim>\<open>x\<close>, \<^verbatim>\<open>y\<close> and \<^verbatim>\<open>size\<close> of the source are named \<open>point_x\<close>,
  \<open>point_y\<close> and \<open>stroke_size\<close> here.
\<close>

datatype BrushStyle = ripple | pulse | particle

record StrokePoint =
  point_x :: real
  point_y :: real
  pressure :: real
  timestamp :: int

record Stroke =
  points :: "StrokePoint list"
  brush :: BrushStyle
  color :: string
  stroke_size :: real

text \<open>The value of \<^verbatim>\<open>lastPointRef.current\<close> when it is not null.\<close>

record XY =
  px :: real
  py :: real

text \<open>
  What the pointer handlers read from the canvas element: the origin of its bounding
  rectangle (\<^verbatim>\<open>getBoundingClientRect()\<close>).
\<close>

record DOMRect =
  rect_left :: real
  rect_top :: real

text \<open>What the handlers read from a pointer event.\<close>

record PointerEvent =
  clientX :: real
  clientY :: real
  ev_pressure :: real

text \<open>
  The state variables and refs that the capture pipeline and the history handlers read
  or write.  \<open>canvasRef\<close> is \<open>None\<close> while \<^verbatim>\<open>canvasRef.current\<close> is null.  The
  canvas rendering context is a separate mutable object and is modelled further below.
\<close>

record State =
  canvasRef :: "DOMRect option"
  isDrawing :: bool
  tempStroke :: "Stroke option"
  strokes :: "Stroke list"
  redoStack :: "Stroke list"
  brushSize :: real
  brushStyle :: BrushStyle
  selectedColor :: string
  lastPointRef :: "XY option"
  lastMoveTimeRef :: int
  moveThrottleRef :: int

text \<open>The values given to \<^verbatim>\<open>useState\<close> and \<^verbatim>\<open>useRef\<close> when the component mounts.\<close>

definition initial_state :: "DOMRect option \<Rightarrow> State" where
  "initial_state canvas =
     \<lparr> canvasRef = canvas, isDrawing = False, tempStroke = None, strokes = [],
       redoStack = [], brushSize = 30, brushStyle = ripple, selectedColor = [],
       lastPointRef = None, lastMoveTimeRef = 0, moveThrottleRef = 16 \<rparr>"

section \<open>Array helpers\<close>

text \<open>
  \<^verbatim>\<open>Array.prototype.filter\<close> with a callback that receives the element and its index:
  \<open>filter_from p i xs\<close> filters \<open>xs\<close>, whose first element has index \<open>i\<close>.
\<close>

fun filter_from :: "('a \<Rightarrow> nat \<Rightarrow> bool) \<Rightarrow> nat \<Rightarrow> 'a list \<Rightarrow> 'a list" where
  "filter_from p i [] = []"
| "filter_from p i (v # vs) =
     (if p v i then v # filter_from p (Suc i) vs else filter_from p (Suc i) vs)"

definition Array_filter :: "('a \<Rightarrow> nat \<Rightarrow> bool) \<Rightarrow> 'a list \<Rightarrow> 'a list" where
  "Array_filter p xs = filter_from p 0 xs"

text \<open>
  \<^verbatim>\<open>Math.ceil(n / d)\<close> for an array length \<open>n\<close> and a positive integer constant \<open>d\<close>.
\<close>

definition Math_ceil_div :: "nat \<Rightarrow> nat \<Rightarrow> nat" where
  "Math_ceil_div n d = nat \<lceil>real n / real d\<rceil>"

section \<open>Input smoother\<close>

text \<open>
  \<^verbatim>\<open>smoothInput\<close> reads and writes \<^verbatim>\<open>lastPointRef.current\<close>; the model takes the
  value of the ref and returns the smoothed sample together with the new value of the ref.
\<close>

record Smoothed =
  sx :: real
  sy :: real
  spressure :: real

definition alpha :: real where
  "alpha = 0.7"

definition smoothInput :: "XY option \<Rightarrow> XY \<Rightarrow> real \<Rightarrow> Smoothed \<times> XY option" where
  "smoothInput ref point pr =
     (case ref of
        None \<Rightarrow> (\<lparr> sx = px point, sy = py point, spressure = pr \<rparr>, Some point)
      | Some lastPoint \<Rightarrow>
          (let smoothedX = alpha * px point + (1 - alpha) * px lastPoint;
               smoothedY = alpha * py point + (1 - alpha) * py lastPoint
           in (\<lparr> sx = smoothedX, sy = smoothedY, spressure = pr \<rparr>,
               Some \<lparr> px = smoothedX, py = smoothedY \<rparr>)))"

section \<open>Capture pipeline\<close>

text \<open>
  Each handler takes the event, the reading of \<^verbatim>\<open>Date.now()\<close> it makes (where it
  makes one) and the state, and returns the state after the handler and the state updates
  it queued.  An early \<^verbatim>\<open>return\<close> gives the state back unchanged.
\<close>

definition handlePointerDown :: "PointerEvent \<Rightarrow> int \<Rightarrow> State \<Rightarrow> State" where
  "handlePointerDown e now s =
     (case canvasRef s of
        None \<Rightarrow> s
      | Some rect \<Rightarrow>
          (let x0 = clientX e - rect_left rect;
               y0 = clientY e - rect_top rect;
               pr = (if ev_pressure e > 0 then ev_pressure e else 1);
               strokeColor = selectedColor s;
               (smoothedInput, ref') = smoothInput None \<lparr> px = x0, py = y0 \<rparr> pr;
               newStroke =
                 \<lparr> points = [\<lparr> point_x = sx smoothedInput, point_y = sy smoothedInput,
                                pressure = spressure smoothedInput, timestamp = now \<rparr>],
                   brush = brushStyle s, color = strokeColor, stroke_size = brushSize s \<rparr>
           in s\<lparr> lastPointRef := ref', tempStroke := Some newStroke,
                 isDrawing := True, redoStack := [] \<rparr>))"

definition handlePointerMove :: "PointerEvent \<Rightarrow> int \<Rightarrow> State \<Rightarrow> State" where
  "handlePointerMove e now s =
     (case (isDrawing s, tempStroke s, canvasRef s) of
        (True, Some ts, Some rect) \<Rightarrow>
          (if now - lastMoveTimeRef s < moveThrottleRef s then s
           else
             (let x0 = clientX e - rect_left rect;
                  y0 = clientY e - rect_top rect;
                  pr = (if ev_pressure e > 0 then ev_pressure e else 1);
                  (smoothedInput, ref') = smoothInput (lastPointRef s) \<lparr> px = x0, py = y0 \<rparr> pr;
                  throttle' =
                    (if length (points ts) > 100 \<and>
                        timestamp (points ts ! (length (points ts) - 1)) > now - 1000
                     then min 32 (moveThrottleRef s + 2)
                     else max 16 (moveThrottleRef s - 1))
              in s\<lparr> lastMoveTimeRef := now, lastPointRef := ref',
                    moveThrottleRef := throttle',
                    tempStroke :=
                      Some (ts\<lparr> points := points ts @
                                  [\<lparr> point_x = sx smoothedInput, point_y = sy smoothedInput,
                                     pressure = spressure smoothedInput,
                                     timestamp = now \<rparr>] \<rparr>) \<rparr>))
      | _ \<Rightarrow> s)"

text \<open>The storage simplification applied to a stroke of more than 500 points.\<close>

definition simplify_points :: "StrokePoint list \<Rightarrow> StrokePoint list" where
  "simplify_points ps =
     (let simplificationFactor = Math_ceil_div (length ps) 500
      in Array_filter (\<lambda>_ i. i mod simplificationFactor = 0 \<or> i = length ps - 1) ps)"

definition handlePointerUp :: "State \<Rightarrow> State" where
  "handlePointerUp s =
     (case (isDrawing s, tempStroke s) of
        (True, Some ts) \<Rightarrow>
          (let s1 =
                 (if length (points ts) > 1
                  then
                    (let optimizedStroke =
                           (if length (points ts) > 500
                            then ts\<lparr> points := simplify_points (points ts) \<rparr>
                            else ts)
                     in s\<lparr> strokes := strokes s @ [optimizedStroke] \<rparr>)
                  else s)
           in s1\<lparr> tempStroke := None, isDrawing := False, lastPointRef := None,
                  moveThrottleRef := 16 \<rparr>)
      | _ \<Rightarrow> s)"

section \<open>History\<close>

definition handleUndo :: "State \<Rightarrow> State" where
  "handleUndo s =
     (if length (strokes s) = 0 then s
      else s\<lparr> strokes := butlast (strokes s),
              redoStack := redoStack s @ [last (strokes s)] \<rparr>)"

definition handleRedo :: "State \<Rightarrow> State" where
  "handleRedo s =
     (if length (redoStack s) = 0 then s
      else s\<lparr> redoStack := butlast (redoStack s),
              strokes := strokes s @ [last (redoStack s)] \<rparr>)"

text \<open>
  \<^verbatim>\<open>handleClear\<close> paints a fading overlay on the rendering context and empties both
  lists; its effect on the state variables is the second part.
\<close>

definition handleClear :: "State \<Rightarrow> State" where
  "handleClear s = s\<lparr> strokes := [], redoStack := [] \<rparr>"

text \<open>The events that reach the component, and the handler each one runs.\<close>

datatype Event =
    PointerDown PointerEvent int
  | PointerMove PointerEvent int
  | PointerUp
  | Undo
  | Redo
  | Clear
  | SetBrushSize real
  | SetBrushStyle BrushStyle
  | SetSelectedColor string

fun handle :: "State \<Rightarrow> Event \<Rightarrow> State" where
  "handle s (PointerDown e now) = handlePointerDown e now s"
| "handle s (PointerMove e now) = handlePointerMove e now s"
| "handle s PointerUp = handlePointerUp s"
| "handle s Undo = handleUndo s"
| "handle s Redo = handleRedo s"
| "handle s Clear = handleClear s"
| "handle s (SetBrushSize v) = s\<lparr> brushSize := v \<rparr>"
| "handle s (SetBrushStyle v) = s\<lparr> brushStyle := v \<rparr>"
| "handle s (SetSelectedColor v) = s\<lparr> selectedColor := v \<rparr>"

definition run :: "State \<Rightarrow> Event list \<Rightarrow> State" where
  "run s evs = foldl handle s evs"

text \<open>One pass of the capture pipeline: a pointer-down, pointer-moves, a pointer-up.\<close>

definition capture :: "PointerEvent \<times> int \<Rightarrow> (PointerEvent \<times> int) list \<Rightarrow> State \<Rightarrow> State" where
  "capture down moves s =
     handlePointerUp
       (foldl (\<lambda>s' (e, now). handlePointerMove e now s')
          (handlePointerDown (fst down) (snd down) s) moves)"

section \<open>Brush renderer\<close>

text \<open>
  The rendering context is an object of the browser.  The model records what the
  component does to it: the property assignments and method calls it receives, oldest
  first.  A value assigned to \<^verbatim>\<open>strokeStyle\<close>, \<^verbatim>\<open>fillStyle\<close> or
  \<^verbatim>\<open>shadowColor\<close> is a colour string of the stroke, or the string that one of the
  colour helpers returns for a colour string and a factor; the latter are recorded as
  the helper and its two arguments.
\<close>

datatype Paint =
    Colour string
  | adjustColorBrightness string real
  | setColorOpacity string real

datatype CanvasCall =
    save
  | restore
  | set_lineCap string
  | set_lineJoin string
  | set_shadowBlur real
  | set_shadowColor Paint
  | set_lineWidth real
  | set_strokeStyle Paint
  | set_fillStyle Paint
  | set_globalAlpha real
  | beginPath
  | moveTo real real
  | lineTo real real
  | arc real real real real real
  | stroke
  | fill

type_synonym Context = "CanvasCall list"

text \<open>
  Reading a property of \<^verbatim>\<open>undefined\<close> throws a \<^verbatim>\<open>TypeError\<close>; this is what
  \<^verbatim>\<open>arr[i].x\<close> does when \<open>i\<close> is not an index of \<open>arr\<close>.  A function that
  throws returns the error in place of its result.
\<close>

datatype Error = TypeError

definition at_index :: "'a list \<Rightarrow> nat \<Rightarrow> Error + 'a" where
  "at_index arr i = (if i < length arr then Inr (arr ! i) else Inl TypeError)"

text \<open>The points a frame draws: every second point and the last one, above 200 points.\<close>

definition pointsToRender :: "Stroke \<Rightarrow> StrokePoint list" where
  "pointsToRender st =
     (if length (points st) > 200
      then Array_filter (\<lambda>_ i. i mod 2 = 0 \<or> i = length (points st) - 1) (points st)
      else points st)"

text \<open>
  The loops of \<^verbatim>\<open>drawBrush\<close>, each from index \<open>i\<close> on: the calls the rest of the loop
  makes, or the error that stops it.  \<open>ripple_outer\<close> is the loop of the outer ripple
  path and \<open>ripple_core\<close> the loop of its bright core; \<open>pulse_path\<close> is both loops
  of the pulse style, with step \<open>inc + 1\<close>; \<open>particle_loop\<close> is the loop of the
  particle style.  The steps \<^verbatim>\<open>step\<close> and \<^verbatim>\<open>particleSpacing\<close>, which the source
  computes once before the loop from the length of the list, are recomputed from the same
  list in each round.
\<close>

function ripple_outer :: "Stroke \<Rightarrow> real \<Rightarrow> StrokePoint list \<Rightarrow> nat \<Rightarrow> Error + CanvasCall list" where
  "ripple_outer st rippleScale ps i =
     (if i < length ps then
        (case at_index ps i of
           Inl err \<Rightarrow> Inl err
         | Inr point \<Rightarrow>
             (let scaledWidth = stroke_size st * pressure point * rippleScale;
                  here = (if i mod 5 = 0 \<or> i = length ps - 1
                          then [set_lineWidth scaledWidth] else [])
                         @ [lineTo (point_x point) (point_y point)]
              in (case ripple_outer st rippleScale ps (i + 1) of
                    Inl err \<Rightarrow> Inl err
                  | Inr rest \<Rightarrow> Inr (here @ rest))))
      else Inr [])"
  by pat_completeness auto
termination
  by (relation "measure (\<lambda>(st, sc, ps, i). length ps - i)") auto

function ripple_core :: "StrokePoint list \<Rightarrow> nat \<Rightarrow> Error + CanvasCall list" where
  "ripple_core ps i =
     (let step = max 1 (length ps div 10) in
      if i < length ps then
        (case at_index ps i of
           Inl err \<Rightarrow> Inl err
         | Inr point \<Rightarrow>
             (let here = (if i = 0 then [moveTo (point_x point) (point_y point)]
                          else [lineTo (point_x point) (point_y point)])
              in (case ripple_core ps (i + step) of
                    Inl err \<Rightarrow> Inl err
                  | Inr rest \<Rightarrow> Inr (here @ rest))))
      else Inr [])"
  by pat_completeness auto
termination
  by (relation "measure (\<lambda>(ps, i). length ps - i)") (auto simp: Let_def)

function pulse_path :: "StrokePoint list \<Rightarrow> nat \<Rightarrow> nat \<Rightarrow> Error + CanvasCall list" where
  "pulse_path ps inc i =
     (if i < length ps then
        (case at_index ps i of
           Inl err \<Rightarrow> Inl err
         | Inr point \<Rightarrow>
             (case pulse_path ps inc (i + Suc inc) of
                Inl err \<Rightarrow> Inl err
              | Inr rest \<Rightarrow> Inr (lineTo (point_x point) (point_y point) # rest)))
      else Inr [])"
  by pat_completeness auto
termination
  by (relation "measure (\<lambda>(ps, inc, i). length ps - i)") auto

text \<open>The two satellite discs of a particle, \<open>j = 0\<close> and \<open>j = 1\<close>.\<close>

definition satellite :: "Stroke \<Rightarrow> StrokePoint \<Rightarrow> real \<Rightarrow> nat \<Rightarrow> nat \<Rightarrow> CanvasCall list" where
  "satellite st point particleSize i j =
     (let angle = real j * pi + real i * 0.1;
          distance = particleSize * 0.7;
          particleX = point_x point + cos angle * distance;
          particleY = point_y point + sin angle * distance
      in [beginPath,
          arc particleX particleY (particleSize * 0.4) 0 (pi * 2),
          set_fillStyle (Colour (color st)),
          set_globalAlpha 0.6,
          fill])"

function particle_loop :: "Stroke \<Rightarrow> StrokePoint list \<Rightarrow> nat \<Rightarrow> Error + CanvasCall list" where
  "particle_loop st ps i =
     (let particleSpacing = max 4 (length ps div 40) in
      if i < length ps then
        (case at_index ps i of
           Inl err \<Rightarrow> Inl err
         | Inr point \<Rightarrow>
             (let particleSize = stroke_size st * pressure point * 0.5;
                  here = [beginPath,
                          set_fillStyle (Colour (color st)),
                          arc (point_x point) (point_y point) particleSize 0 (pi * 2),
                          fill]
                         @ (if i mod (particleSpacing * 2) = 0
                            then satellite st point particleSize i 0
                                 @ satellite st point particleSize i 1
                                 @ [set_globalAlpha 1.0]
                            else [])
              in (case particle_loop st ps (i + particleSpacing) of
                    Inl err \<Rightarrow> Inl err
                  | Inr rest \<Rightarrow> Inr (here @ rest))))
      else Inr [])"
  by pat_completeness auto
termination
  by (relation "measure (\<lambda>(st, ps, i). length ps - i)") (auto simp: Let_def)

declare ripple_outer.simps [simp del] ripple_core.simps [simp del]
  pulse_path.simps [simp del] particle_loop.simps [simp del]

text \<open>The three branches of the \<^verbatim>\<open>switch\<close>; \<open>now\<close> is the reading of
  \<^verbatim>\<open>performance.now()\<close> that the ripple and pulse branches make.\<close>

definition draw_ripple :: "real \<Rightarrow> Stroke \<Rightarrow> StrokePoint list \<Rightarrow> Error + CanvasCall list" where
  "draw_ripple now st ps =
     (let rippleTime = now * 0.001;
          rippleScale = 0.8 + 0.2 * sin (rippleTime * 2)
      in (case at_index ps 0 of
            Inl err \<Rightarrow> Inl err
          | Inr first \<Rightarrow>
              (case ripple_outer st rippleScale ps 1 of
                 Inl err \<Rightarrow> Inl err
               | Inr outer \<Rightarrow>
                   (let drawn = [beginPath, moveTo (point_x first) (point_y first)] @ outer
                                @ [set_strokeStyle (Colour (color st)), stroke]
                    in if length ps > 10 then
                         (case ripple_core ps 0 of
                            Inl err \<Rightarrow> Inl err
                          | Inr core \<Rightarrow>
                              (case at_index ps (length ps - 1) of
                                 Inl err \<Rightarrow> Inl err
                               | Inr lastPoint \<Rightarrow>
                                   Inr (drawn @ [beginPath] @ core
                                        @ [lineTo (point_x lastPoint) (point_y lastPoint),
                                           set_lineWidth (stroke_size st * 0.4 * rippleScale),
                                           set_strokeStyle (adjustColorBrightness (color st) 1.2),
                                           stroke])))
                       else Inr drawn))))"

definition draw_pulse :: "real \<Rightarrow> Stroke \<Rightarrow> StrokePoint list \<Rightarrow> Error + CanvasCall list" where
  "draw_pulse now st ps =
     (let pulseTime = now * 0.003;
          pulseScale = 0.8 + 0.4 * sin pulseTime
      in (case at_index ps 0 of
            Inl err \<Rightarrow> Inl err
          | Inr first \<Rightarrow>
              (case pulse_path ps 0 1 of
                 Inl err \<Rightarrow> Inl err
               | Inr full \<Rightarrow>
                   (case pulse_path ps 1 1 of
                      Inl err \<Rightarrow> Inl err
                    | Inr halo \<Rightarrow>
                        Inr ([beginPath, moveTo (point_x first) (point_y first)] @ full
                             @ [set_lineWidth (stroke_size st * pulseScale),
                                set_strokeStyle (Colour (color st)), stroke,
                                beginPath, moveTo (point_x first) (point_y first)] @ halo
                             @ [set_lineWidth (stroke_size st * pulseScale * 1.5),
                                set_strokeStyle (setColorOpacity (color st) 0.3),
                                stroke])))))"

definition draw_particle :: "Stroke \<Rightarrow> StrokePoint list \<Rightarrow> Error + CanvasCall list" where
  "draw_particle st ps = particle_loop st ps 0"

text \<open>
  \<^verbatim>\<open>drawBrush(stroke, context)\<close>.  The stroke is passed by reference, so the model
  returns the stroke as it is after the call, next to the context after the call.
  \<open>now\<close> is not a parameter of the source: it is the value that \<^verbatim>\<open>performance.now()\<close>
  returns when the call reads the clock.
\<close>

definition drawBrush :: "real \<Rightarrow> Stroke \<Rightarrow> Context option \<Rightarrow> Error + Stroke \<times> Context option" where
  "drawBrush now st context =
     (case context of
        None \<Rightarrow> Inr (st, None)
      | Some calls \<Rightarrow>
          if length (points st) < 2 then Inr (st, Some calls)
          else
            (let setup = [save, set_lineCap ''round'', set_lineJoin ''round'',
                          set_shadowBlur (stroke_size st * 0.5),
                          set_shadowColor (Colour (color st))];
                 ps = pointsToRender st
             in (case (case brush st of
                         ripple \<Rightarrow> draw_ripple now st ps
                       | pulse \<Rightarrow> draw_pulse now st ps
                       | particle \<Rightarrow> draw_particle st ps) of
                   Inl err \<Rightarrow> Inl err
                 | Inr drawn \<Rightarrow> Inr (st, Some (calls @ setup @ drawn @ [restore])))))"

section \<open>Invariants\<close>

text \<open>The sampling interval lies between its floor and its ceiling.\<close>

definition interval_in_range :: "State \<Rightarrow> bool" where
  "interval_in_range s \<longleftrightarrow> 16 \<le> moveThrottleRef s \<and> moveThrottleRef s \<le> 32"

text \<open>Every stroke held by the history, committed or undone, has two points or more.\<close>

definition history_drawn :: "State \<Rightarrow> bool" where
  "history_drawn s \<longleftrightarrow>
     (\<forall>st \<in> set (strokes s) \<union> set (redoStack s). 2 \<le> length (points st))"

section \<open>Example inputs\<close>

text \<open>Concrete values on which the theorems below are evaluated.\<close>

definition example_canvas :: DOMRect where
  "example_canvas = \<lparr> rect_left = 0, rect_top = 0 \<rparr>"

definition example_point :: "nat \<Rightarrow> StrokePoint" where
  "example_point i =
     \<lparr> point_x = real i, point_y = 0, pressure = 1, timestamp = 40 * int i \<rparr>"

definition example_stroke :: "BrushStyle \<Rightarrow> nat \<Rightarrow> Stroke" where
  "example_stroke b n =
     \<lparr> points = map example_point [0..<n], brush = b, color = ''#50E3C2'',
       stroke_size = 30 \<rparr>"

text \<open>A state in the middle of a capture whose in-progress stroke is \<open>st\<close>.\<close>

definition capturing :: "Stroke \<Rightarrow> State" where
  "capturing st =
     (initial_state (Some example_canvas))\<lparr> isDrawing := True, tempStroke := Some st \<rparr>"

text \<open>An idle state with two committed strokes and two undone ones.\<close>

definition example_history :: State where
  "example_history =
     (initial_state (Some example_canvas))
       \<lparr> strokes := [example_stroke ripple 2, example_stroke pulse 3],
         redoStack := [example_stroke particle 4, example_stroke ripple 5] \<rparr>"

text \<open>A pointer event at horizontal position \<open>v\<close> from a device that reports no pressure.\<close>

definition example_event :: "real \<Rightarrow> PointerEvent" where
  "example_event v = \<lparr> clientX = v, clientY = 0, ev_pressure = 0 \<rparr>"

section \<open>Filtering by index\<close>

text \<open>
  A filter whose callback looks at the index only selects the elements at the indices
  that satisfy it, which is what \<open>nths\<close> of the list library does.
\<close>

lemma filter_from_nths: "filter_from (\<lambda>_ i. P i) k xs = nths xs {j. P (j + k)}"
  by (induction xs arbitrary: k) (auto simp: nths_Cons)

lemma Array_filter_nths: "Array_filter (\<lambda>_ i. P i) xs = nths xs {j. P j}"
  by (simp add: Array_filter_def filter_from_nths)

lemma last_nths:
  assumes "xs \<noteq> []" "length xs - 1 \<in> I"
  shows "last (nths xs I) = last xs"
proof -
  obtain ys z where xs: "xs = ys @ [z]"
    using assms(1) by (cases xs rule: rev_cases) auto
  have "nths xs I = nths ys I @ [z]"
    using assms(2) by (simp add: xs nths_append nths_Cons)
  then show ?thesis by (simp add: xs)
qed

lemma hd_nths:
  assumes "xs \<noteq> []" "0 \<in> I"
  shows "hd (nths xs I) = hd xs"
  using assms by (cases xs) (auto simp: nths_Cons)

section \<open>Storage simplification on commit\<close>

lemma Math_ceil_div_ge:
  assumes "0 < d"
  shows "n \<le> d * Math_ceil_div n d"
proof -
  have nonneg: "0 \<le> \<lceil>real n / real d\<rceil>"
    using ceiling_mono[of 0 "real n / real d"] by simp
  have "real n / real d \<le> of_int \<lceil>real n / real d\<rceil>" by (rule le_of_int_ceiling)
  also have "\<dots> = real (Math_ceil_div n d)"
    using nonneg by (simp add: Math_ceil_div_def)
  finally have "real n \<le> real d * real (Math_ceil_div n d)"
    using assms by (simp add: field_simps)
  then have "real n \<le> real (d * Math_ceil_div n d)" by simp
  then show ?thesis by (simp only: of_nat_le_iff)
qed

lemma card_multiples_le:
  assumes "0 < N" "n \<le> m * N"
  shows "card {i. i < n \<and> i mod N = 0} \<le> m"
proof -
  let ?A = "{i. i < n \<and> i mod N = 0}"
  have "inj_on (\<lambda>i. i div N) ?A"
    by (rule inj_onI) (metis (mono_tags, lifting) mem_Collect_eq mod_div_mult_eq add.right_neutral)
  moreover have "(\<lambda>i. i div N) ` ?A \<subseteq> {..<m}"
    using assms by (auto simp: less_mult_imp_div_less)
  ultimately have "card ?A \<le> card {..<m}"
    by (intro card_inj_on_le) auto
  then show ?thesis by simp
qed

lemma length_simplify_points_le:
  assumes "0 < length ps"
  shows "length (simplify_points ps) \<le> 501"
proof -
  let ?n = "length ps"
  let ?N = "Math_ceil_div ?n 500"
  have ge: "?n \<le> 500 * ?N" by (rule Math_ceil_div_ge) simp
  then have N: "0 < ?N" using assms by (cases "?N = 0") auto
  have "{i. i < ?n \<and> (i mod ?N = 0 \<or> i = ?n - 1)} \<subseteq> insert (?n - 1) {i. i < ?n \<and> i mod ?N = 0}"
    by auto
  then have "card {i. i < ?n \<and> (i mod ?N = 0 \<or> i = ?n - 1)} \<le> card (insert (?n - 1) {i. i < ?n \<and> i mod ?N = 0})"
    by (intro card_mono) auto
  also have "\<dots> \<le> Suc (card {i. i < ?n \<and> i mod ?N = 0})"
    by (simp add: card_insert_if)
  also have "\<dots> \<le> Suc 500"
    using card_multiples_le[OF N, of ?n 500] ge by (simp add: mult.commute)
  finally show ?thesis
    by (simp add: simplify_points_def Array_filter_nths length_nths Let_def)
qed

lemma length_simplify_1000:
  assumes "length ps = 1000"
  shows "length (simplify_points ps) = 501"
proof -
  have N: "Math_ceil_div 1000 500 = 2" by (simp add: Math_ceil_div_def)
  have "{i. i < (1000::nat) \<and> (i mod 2 = 0 \<or> i = 999)} = insert 999 ((\<lambda>k. 2 * k) ` {..<500})"
    by (auto elim!: evenE) 
  moreover have "card (insert (999::nat) ((\<lambda>k. 2 * k) ` {..<500})) = 501"
    by (subst card_insert_disjoint) (auto simp: card_image inj_on_def)
  ultimately show ?thesis
    using assms by (simp add: simplify_points_def Array_filter_nths length_nths Let_def N)
qed

lemma simplify_points_nths:
  "simplify_points ps =
     nths ps {i. i mod Math_ceil_div (length ps) 500 = 0 \<or> i = length ps - 1}"
  by (simp add: simplify_points_def Array_filter_nths Let_def)

lemma simplify_points_ends:
  assumes "ps \<noteq> []"
  shows "simplify_points ps \<noteq> []"
    and "hd (simplify_points ps) = hd ps"
    and "last (simplify_points ps) = last ps"
proof -
  show "hd (simplify_points ps) = hd ps"
    using assms by (simp add: simplify_points_nths hd_nths)
  show "last (simplify_points ps) = last ps"
    using assms by (simp add: simplify_points_nths last_nths)
  have "0 < card {i. i < length ps \<and> (i mod Math_ceil_div (length ps) 500 = 0 \<or> i = length ps - 1)}"
    using assms by (auto simp: card_gt_0_iff intro: exI[of _ 0])
  then show "simplify_points ps \<noteq> []"
    by (simp add: simplify_points_nths length_nths flip: length_greater_0_conv)
qed

lemma handlePointerUp_commit:
  assumes "isDrawing s" "tempStroke s = Some ts" "length (points ts) > 1"
  shows "strokes (handlePointerUp s) =
           strokes s @ [if length (points ts) > 500
                        then ts\<lparr> points := simplify_points (points ts) \<rparr> else ts]"
  using assms by (simp add: handlePointerUp_def Let_def)

text \<open>
  Claim C1, as amended.  When a capture ends with more than 500 points, the stroke that
  is appended to the committed list keeps the points whose index is a multiple of
  \<open>N = \<lceil>count / 500\<rceil>\<close> and the last point.  That is at most 500 points and the
  last one, so at most 501 points, and the last stored point is the last raw point.  A
  stroke of 1000 raw points is stored with 501 points.
\<close>

theorem commit_long_stroke:
  assumes "isDrawing s" and "tempStroke s = Some ts" and "length (points ts) > 500"
  shows "strokes (handlePointerUp s) = strokes s @ [ts\<lparr> points := simplify_points (points ts) \<rparr>]
       \<and> simplify_points (points ts) =
           nths (points ts) {i. i mod Math_ceil_div (length (points ts)) 500 = 0
                               \<or> i = length (points ts) - 1}
       \<and> length (simplify_points (points ts)) \<le> 501
       \<and> last (simplify_points (points ts)) = last (points ts)
       \<and> (length (points ts) = 1000 \<longrightarrow> length (simplify_points (points ts)) = 501)"
proof -
  have ne: "points ts \<noteq> []" using assms(3) by auto
  have "strokes (handlePointerUp s) = strokes s @ [ts\<lparr> points := simplify_points (points ts) \<rparr>]"
    using handlePointerUp_commit[OF assms(1,2)] assms(3) by simp
  moreover have "length (simplify_points (points ts)) \<le> 501"
    using ne by (intro length_simplify_points_le) simp
  ultimately show ?thesis
    using simplify_points_nths simplify_points_ends(3)[OF ne] length_simplify_1000 by blast
qed

lemma capturing_simps:
  "isDrawing (capturing st)" "tempStroke (capturing st) = Some st"
  "strokes (capturing st) = []" "redoStack (capturing st) = []"
  "canvasRef (capturing st) = Some example_canvas"
  "moveThrottleRef (capturing st) = 16" "lastMoveTimeRef (capturing st) = 0"
  "lastPointRef (capturing st) = None"
  by (simp_all add: capturing_def initial_state_def)

lemma length_example_stroke: "length (points (example_stroke b n)) = n"
  by (simp add: example_stroke_def)

theorem commit_long_stroke_witness:
  "isDrawing (capturing (example_stroke ripple 1000))
   \<and> tempStroke (capturing (example_stroke ripple 1000)) = Some (example_stroke ripple 1000)
   \<and> length (points (example_stroke ripple 1000)) > 500
   \<and> length (points (last (strokes (handlePointerUp (capturing (example_stroke ripple 1000)))))) = 501
   \<and> last (points (last (strokes (handlePointerUp (capturing (example_stroke ripple 1000))))))
       = example_point 999"
proof -
  let ?t = "example_stroke ripple 1000"
  let ?s = "capturing ?t"
  have h1: "isDrawing ?s" and h2: "tempStroke ?s = Some ?t"
    by (simp_all add: capturing_simps)
  have len: "length (points ?t) = 1000" by (simp add: length_example_stroke)
  then have h3: "length (points ?t) > 500" by simp
  have lst: "last (points ?t) = example_point 999"
    by (simp add: example_stroke_def last_map)
  note c = commit_long_stroke[OF h1 h2 h3]
  from c have "strokes (handlePointerUp ?s) = [?t\<lparr> points := simplify_points (points ?t) \<rparr>]"
    by (simp add: capturing_simps)
  moreover from c len have "length (simplify_points (points ?t)) = 501" by blast
  moreover from c lst have "last (simplify_points (points ?t)) = example_point 999" by metis
  ultimately show ?thesis using h1 h2 h3 by simp
qed

text \<open>
  Claim C1 as stated fails: a stroke of 1000 points is committed with 501 points, the
  500 points at even indices and the point at index 999.
\<close>

theorem commit_1000_counterexample:
  "length (points (example_stroke ripple 1000)) = 1000
   \<and> \<not> length (points (last (strokes (handlePointerUp (capturing (example_stroke ripple 1000)))))) \<le> 500"
  using handlePointerUp_commit[of "capturing (example_stroke ripple 1000)" "example_stroke ripple 1000"]
        length_simplify_1000[of "points (example_stroke ripple 1000)"]
  by (simp add: capturing_simps length_example_stroke)

section \<open>Render-time simplification and the brush renderer\<close>

lemma pointsToRender_ends:
  assumes "points st \<noteq> []"
  shows "pointsToRender st \<noteq> []"
    and "hd (pointsToRender st) = hd (points st)"
    and "last (pointsToRender st) = last (points st)"
proof -
  let ?I = "{i. i mod 2 = 0 \<or> i = length (points st) - 1}"
  have eq: "pointsToRender st = (if length (points st) > 200 then nths (points st) ?I else points st)"
    by (simp add: pointsToRender_def Array_filter_nths)
  show "hd (pointsToRender st) = hd (points st)"
    using assms by (simp add: eq hd_nths)
  show "last (pointsToRender st) = last (points st)"
    using assms by (simp add: eq last_nths)
  have "0 < card {i. i < length (points st) \<and> i \<in> ?I}"
    using assms by (auto simp: card_gt_0_iff intro: exI[of _ 0])
  then have "nths (points st) ?I \<noteq> []"
    by (simp add: length_nths flip: length_greater_0_conv)
  then show "pointsToRender st \<noteq> []"
    using assms by (simp add: eq)
qed

lemma length_nths_two:
  assumes "1 < length ps" "0 \<in> I" "length ps - 1 \<in> I"
  shows "2 \<le> length (nths ps I)"
proof -
  have "{0, length ps - 1} \<subseteq> {i. i < length ps \<and> i \<in> I}"
    using assms by auto
  then have "card {0, length ps - 1} \<le> card {i. i < length ps \<and> i \<in> I}"
    by (intro card_mono) auto
  moreover have "card {0, length ps - 1} = 2"
    using assms(1) by (simp add: card_insert_if)
  ultimately show ?thesis by (simp add: length_nths)
qed

lemma length_simplify_points_ge:
  "1 < length ps \<Longrightarrow> 2 \<le> length (simplify_points ps)"
  by (simp add: simplify_points_nths length_nths_two)

lemma length_pointsToRender_ge:
  "1 < length (points st) \<Longrightarrow> 2 \<le> length (pointsToRender st)"
  by (simp add: pointsToRender_def Array_filter_nths length_nths_two)

lemma at_index_ok: "i < length arr \<Longrightarrow> at_index arr i = Inr (arr ! i)"
  by (simp add: at_index_def)

lemma ripple_outer_ok: "\<exists>cs. ripple_outer st sc ps i = Inr cs"
proof (induction st sc ps i rule: ripple_outer.induct)
  case (1 st sc ps i)
  show ?case
  proof (cases "i < length ps")
    case True
    from "1.IH"[OF True at_index_ok[OF True] refl refl]
    obtain rest where "ripple_outer st sc ps (i + 1) = Inr rest" by blast
    then show ?thesis
      using True by (subst ripple_outer.simps) (simp add: at_index_ok Let_def)
  next
    case False
    then show ?thesis by (subst ripple_outer.simps) simp
  qed
qed

lemma ripple_core_ok: "\<exists>cs. ripple_core ps i = Inr cs"
proof (induction ps i rule: ripple_core.induct)
  case (1 ps i)
  show ?case
  proof (cases "i < length ps")
    case True
    from "1.IH"[OF refl True at_index_ok[OF True] refl]
    obtain rest where "ripple_core ps (i + max 1 (length ps div 10)) = Inr rest" by blast
    then show ?thesis
      using True by (subst ripple_core.simps) (simp add: at_index_ok Let_def)
  next
    case False
    then show ?thesis by (subst ripple_core.simps) simp
  qed
qed

lemma pulse_path_ok: "\<exists>cs. pulse_path ps inc i = Inr cs"
proof (induction ps inc i rule: pulse_path.induct)
  case (1 ps inc i)
  show ?case
  proof (cases "i < length ps")
    case True
    from "1.IH"[OF True at_index_ok[OF True]]
    obtain rest where "pulse_path ps inc (i + Suc inc) = Inr rest" by blast
    then show ?thesis
      using True by (subst pulse_path.simps) (simp add: at_index_ok)
  next
    case False
    then show ?thesis by (subst pulse_path.simps) simp
  qed
qed

lemma particle_loop_ok: "\<exists>cs. particle_loop st ps i = Inr cs"
proof (induction st ps i rule: particle_loop.induct)
  case (1 st ps i)
  show ?case
  proof (cases "i < length ps")
    case True
    from "1.IH"[OF refl True at_index_ok[OF True] refl refl]
    obtain rest where "particle_loop st ps (i + max 4 (length ps div 40)) = Inr rest" by blast
    then show ?thesis
      using True by (subst particle_loop.simps) (simp add: at_index_ok Let_def)
  next
    case False
    then show ?thesis by (subst particle_loop.simps) simp
  qed
qed

lemma draw_ripple_ok:
  assumes "2 \<le> length ps"
  shows "\<exists>cs. draw_ripple now st ps = Inr cs"
proof -
  have "at_index ps 0 = Inr (ps ! 0)" "at_index ps (length ps - 1) = Inr (ps ! (length ps - 1))"
    using assms by (auto simp: at_index_def)
  then show ?thesis
    using ripple_outer_ok[of st "0.8 + 0.2 * sin (now * 0.001 * 2)" ps 1] ripple_core_ok[of ps 0]
    by (auto simp: draw_ripple_def Let_def split: sum.splits)
qed

lemma draw_pulse_ok:
  assumes "2 \<le> length ps"
  shows "\<exists>cs. draw_pulse now st ps = Inr cs"
proof -
  have "at_index ps 0 = Inr (ps ! 0)" using assms by (auto simp: at_index_def)
  then show ?thesis
    using pulse_path_ok[of ps 0 1] pulse_path_ok[of ps 1 1]
    by (auto simp: draw_pulse_def Let_def split: sum.splits)
qed

lemma draw_particle_ok: "\<exists>cs. draw_particle st ps = Inr cs"
  by (simp add: draw_particle_def particle_loop_ok)

lemma drawBrush_calls:
  assumes "2 \<le> length (points st)"
  shows "\<exists>cs. \<forall>calls. drawBrush now st (Some calls) = Inr (st, Some (calls @ cs))"
proof -
  have len: "2 \<le> length (pointsToRender st)"
    using assms by (intro length_pointsToRender_ge) simp
  have "\<exists>drawn.
    (case brush st of ripple \<Rightarrow> draw_ripple now st (pointsToRender st)
        | pulse \<Rightarrow> draw_pulse now st (pointsToRender st)
        | particle \<Rightarrow> draw_particle st (pointsToRender st)) = Inr drawn"
    by (cases "brush st")
       (simp_all add: draw_ripple_ok[OF len] draw_pulse_ok[OF len] draw_particle_ok)
  then obtain drawn where d:
    "(case brush st of ripple \<Rightarrow> draw_ripple now st (pointsToRender st)
        | pulse \<Rightarrow> draw_pulse now st (pointsToRender st)
        | particle \<Rightarrow> draw_particle st (pointsToRender st)) = Inr drawn"
    by blast
  show ?thesis
    using assms by (simp add: drawBrush_def Let_def d)
qed

lemma drawBrush_noop:
  assumes "length (points st) < 2 \<or> ctx = None"
  shows "drawBrush now st ctx = Inr (st, ctx)"
  using assms by (auto simp: drawBrush_def split: option.splits)

lemma drawBrush_total: "\<exists>st' ctx'. drawBrush now st ctx = Inr (st', ctx')"
proof (cases "length (points st) < 2 \<or> ctx = None")
  case True
  then show ?thesis using drawBrush_noop by blast
next
  case False
  then obtain calls where "ctx = Some calls" and "2 \<le> length (points st)" by auto
  then show ?thesis using drawBrush_calls[of st now] by auto
qed

lemma drawBrush_keeps_stroke:
  "drawBrush now st ctx = Inr (st', ctx') \<Longrightarrow> st' = st"
  by (auto simp: drawBrush_def Let_def split: option.splits if_splits sum.splits)


lemma example_stroke_simps:
  "points (example_stroke b n) = map example_point [0..<n]"
  "brush (example_stroke b n) = b"
  "color (example_stroke b n) = ''#50E3C2''"
  "stroke_size (example_stroke b n) = 30"
  by (simp_all add: example_stroke_def)

lemma example_stroke_ends:
  assumes "0 < n"
  shows "hd (points (example_stroke b n)) = example_point 0"
    and "last (points (example_stroke b n)) = example_point (n - 1)"
  using assms by (simp_all add: example_stroke_simps hd_map last_map)

text \<open>
  Claim C7.  For every stroke with at least one point, the first and the last point of
  the original sequence are elements of the storage-simplified sequence and of the
  render-time-simplified sequence, as its first and its last element; the stroke that a
  commit appends to the committed list starts and ends with them, whether or not the
  commit simplifies; and \<open>drawBrush\<close> returns with the stroke it was given unchanged.
\<close>

theorem simplification_keeps_endpoints:
  assumes "points st \<noteq> []"
  shows "hd (points st) \<in> set (simplify_points (points st))
       \<and> last (points st) \<in> set (simplify_points (points st))
       \<and> hd (simplify_points (points st)) = hd (points st)
       \<and> last (simplify_points (points st)) = last (points st)
       \<and> hd (points st) \<in> set (pointsToRender st)
       \<and> last (points st) \<in> set (pointsToRender st)
       \<and> hd (pointsToRender st) = hd (points st)
       \<and> last (pointsToRender st) = last (points st)
       \<and> (isDrawing s \<and> tempStroke s = Some st \<and> 1 < length (points st) \<longrightarrow>
            (\<exists>c. strokes (handlePointerUp s) = strokes s @ [c]
                \<and> hd (points st) \<in> set (points c) \<and> last (points st) \<in> set (points c)
                \<and> hd (points c) = hd (points st) \<and> last (points c) = last (points st)))
       \<and> (\<exists>ctx'. drawBrush now st ctx = Inr (st, ctx'))"
proof -
  note sp = simplify_points_ends[OF assms]
  note rp = pointsToRender_ends[OF assms]
  have sp_in: "hd (points st) \<in> set (simplify_points (points st))"
              "last (points st) \<in> set (simplify_points (points st))"
    using sp hd_in_set[of "simplify_points (points st)"] last_in_set[of "simplify_points (points st)"]
    by auto
  have rp_in: "hd (points st) \<in> set (pointsToRender st)"
              "last (points st) \<in> set (pointsToRender st)"
    using rp hd_in_set[of "pointsToRender st"] last_in_set[of "pointsToRender st"]
    by auto
  have commit: "\<exists>c. strokes (handlePointerUp s) = strokes s @ [c]
                \<and> hd (points st) \<in> set (points c) \<and> last (points st) \<in> set (points c)
                \<and> hd (points c) = hd (points st) \<and> last (points c) = last (points st)"
    if "isDrawing s" "tempStroke s = Some st" "1 < length (points st)"
  proof (cases "length (points st) > 500")
    case True
    then show ?thesis
      using handlePointerUp_commit[OF that] sp sp_in by simp
  next
    case False
    then show ?thesis
      using handlePointerUp_commit[OF that] assms by simp
  qed
  have keep: "\<exists>ctx'. drawBrush now st ctx = Inr (st, ctx')"
    using drawBrush_total[of now st ctx] drawBrush_keeps_stroke by blast
  show ?thesis
    using sp sp_in rp rp_in commit keep by blast
qed

theorem simplification_keeps_endpoints_witness:
  "points (example_stroke pulse 1000) \<noteq> []
   \<and> example_point 0 \<in> set (simplify_points (points (example_stroke pulse 1000)))
   \<and> example_point 999 \<in> set (simplify_points (points (example_stroke pulse 1000)))
   \<and> example_point 0 \<in> set (pointsToRender (example_stroke pulse 1000))
   \<and> example_point 999 \<in> set (pointsToRender (example_stroke pulse 1000))
   \<and> (\<exists>c. strokes (handlePointerUp (capturing (example_stroke pulse 1000))) = [c]
          \<and> hd (points c) = example_point 0 \<and> last (points c) = example_point 999)
   \<and> (\<exists>ctx'. drawBrush 0 (example_stroke pulse 1000) (Some [])
                     = Inr (example_stroke pulse 1000, ctx'))"
proof -
  let ?t = "example_stroke pulse 1000"
  have ne: "points ?t \<noteq> []"
    using length_example_stroke[of pulse 1000] by auto
  have len: "1 < length (points ?t)"
    by (simp add: length_example_stroke)
  note ends = example_stroke_ends[of 1000 pulse]
  note k = simplification_keeps_endpoints[OF ne, of "capturing ?t" 0 "Some []"]
  show ?thesis
    using ne k len ends by (auto simp: capturing_simps)
qed

lemma ripple_outer_two:
  assumes "length ps = 2"
  shows "ripple_outer st sc ps (Suc 0) =
           Inr [set_lineWidth (stroke_size st * pressure (ps ! 1) * sc),
                lineTo (point_x (ps ! 1)) (point_y (ps ! 1))]"
  using assms
  by (subst ripple_outer.simps, subst ripple_outer.simps) (simp add: at_index_def)

lemma drawBrush_example_ripple:
  "drawBrush t (example_stroke ripple 2) (Some []) =
     Inr (example_stroke ripple 2,
          Some [save, set_lineCap ''round'', set_lineJoin ''round'', set_shadowBlur 15,
                set_shadowColor (Colour ''#50E3C2''), beginPath, moveTo 0 0,
                set_lineWidth (30 * (0.8 + 0.2 * sin (t * 0.001 * 2))), lineTo 1 0,
                set_strokeStyle (Colour ''#50E3C2''), stroke, restore])"
proof -
  have ps: "pointsToRender (example_stroke ripple 2) = [example_point 0, example_point 1]"
    by (simp add: pointsToRender_def example_stroke_simps numeral_2_eq_2)
  show ?thesis
    by (simp add: drawBrush_def Let_def ps draw_ripple_def ripple_outer_two at_index_def
          example_stroke_simps example_point_def)
qed

text \<open>
  Claim C9 as stated fails: \<open>drawBrush\<close> has no time parameter and reads the clock
  itself, so the same ripple stroke on the same context is drawn with line width 24
  when the clock reads 0 and with line width 30 when it reads \<open>250\<pi>\<close> milliseconds.
\<close>

theorem drawBrush_reads_clock_counterexample:
  "drawBrush 0 (example_stroke ripple 2) (Some [])
     \<noteq> drawBrush (250 * pi) (example_stroke ripple 2) (Some [])"
  by (simp add: drawBrush_example_ripple)

text \<open>
  Claim C9, as amended.  For a stroke with at least 2 points, the calls that
  \<open>drawBrush\<close> makes on the context are determined by the stroke and by the value the
  call reads from \<^verbatim>\<open>performance.now()\<close>: they do not depend on what the context has
  received before, so two renders that read the same clock value draw identically.
\<close>

theorem drawBrush_same_clock_same_calls:
  assumes "2 \<le> length (points st)"
  shows "\<exists>cs. \<forall>calls. drawBrush now st (Some calls) = Inr (st, Some (calls @ cs))"
  using assms by (rule drawBrush_calls)

theorem drawBrush_same_clock_same_calls_witness:
  "2 \<le> length (points (example_stroke ripple 2))
   \<and> (\<exists>cs. \<forall>calls. drawBrush 0 (example_stroke ripple 2) (Some calls)
                      = Inr (example_stroke ripple 2, Some (calls @ cs)))"
  using drawBrush_same_clock_same_calls[of "example_stroke ripple 2" 0]
  by (simp add: length_example_stroke)

text \<open>
  Claim C10.  With fewer than 2 points, or with no rendering context, \<open>drawBrush\<close>
  returns at once: stroke and context are unchanged and no point is read.  With 2
  points or more the first and the last index of the render list are in range and hold
  the first and the last point of the stroke, and for every input \<open>drawBrush\<close> returns
  without a \<open>TypeError\<close>.
\<close>

theorem drawBrush_short_stroke_noop:
  "(length (points st) < 2 \<or> ctx = None \<longrightarrow> drawBrush now st ctx = Inr (st, ctx))
   \<and> (2 \<le> length (points st) \<longrightarrow>
        at_index (pointsToRender st) 0 = Inr (hd (points st))
      \<and> at_index (pointsToRender st) (length (pointsToRender st) - 1) = Inr (last (points st)))
   \<and> drawBrush now st ctx \<noteq> Inl TypeError"
proof -
  have "at_index (pointsToRender st) 0 = Inr (hd (points st))
      \<and> at_index (pointsToRender st) (length (pointsToRender st) - 1) = Inr (last (points st))"
    if "2 \<le> length (points st)"
  proof -
    have ne: "points st \<noteq> []" using that by auto
    note rp = pointsToRender_ends[OF ne]
    show ?thesis
      using rp by (simp add: at_index_def hd_conv_nth last_conv_nth)
  qed
  moreover have "drawBrush now st ctx \<noteq> Inl TypeError"
    using drawBrush_total[of now st ctx] by auto
  ultimately show ?thesis
    using drawBrush_noop[of st ctx now] by blast
qed

theorem drawBrush_short_stroke_noop_witness:
  "length (points (example_stroke particle 1)) < 2
   \<and> drawBrush 0 (example_stroke particle 1) (Some [save])
       = Inr (example_stroke particle 1, Some [save])
   \<and> drawBrush 0 (example_stroke particle 2) None = Inr (example_stroke particle 2, None)
   \<and> 2 \<le> length (points (example_stroke particle 2))
   \<and> at_index (pointsToRender (example_stroke particle 2)) 0 = Inr (example_point 0)
   \<and> at_index (pointsToRender (example_stroke particle 2))
        (length (pointsToRender (example_stroke particle 2)) - 1) = Inr (example_point 1)"
  using drawBrush_short_stroke_noop[of "example_stroke particle 1" "Some [save]" 0]
        drawBrush_short_stroke_noop[of "example_stroke particle 2" None 0]
        example_stroke_ends[of 2 particle]
  by (simp add: length_example_stroke)

section \<open>Undo and redo\<close>

lemma handleUndo_nonempty:
  "strokes s \<noteq> [] \<Longrightarrow>
     handleUndo s = s\<lparr> strokes := butlast (strokes s),
                       redoStack := redoStack s @ [last (strokes s)] \<rparr>"
  by (simp add: handleUndo_def)

lemma handleRedo_nonempty:
  "redoStack s \<noteq> [] \<Longrightarrow>
     handleRedo s = s\<lparr> redoStack := butlast (redoStack s),
                       strokes := strokes s @ [last (redoStack s)] \<rparr>"
  by (simp add: handleRedo_def)

text \<open>
  Claim C2.  In every state whose committed list is not empty, undo followed by redo
  gives back the committed list as it was, stroke for stroke and in the same order, and
  the redo buffer as it was; no other field changes either.
\<close>

theorem undo_redo_roundtrip:
  assumes "strokes s \<noteq> []"
  shows "strokes (handleRedo (handleUndo s)) = strokes s
       \<and> redoStack (handleRedo (handleUndo s)) = redoStack s
       \<and> handleRedo (handleUndo s) = s"
  using assms by (simp add: handleUndo_nonempty handleRedo_nonempty)

lemma example_history_simps:
  "strokes example_history = [example_stroke ripple 2, example_stroke pulse 3]"
  "redoStack example_history = [example_stroke particle 4, example_stroke ripple 5]"
  "canvasRef example_history = Some example_canvas"
  "isDrawing example_history = False"
  "tempStroke example_history = None"
  "moveThrottleRef example_history = 16"
  "lastMoveTimeRef example_history = 0"
  by (simp_all add: example_history_def initial_state_def)

theorem undo_redo_roundtrip_witness:
  "strokes example_history \<noteq> []
   \<and> strokes (handleRedo (handleUndo example_history)) =
        [example_stroke ripple 2, example_stroke pulse 3]
   \<and> redoStack (handleRedo (handleUndo example_history)) =
        [example_stroke particle 4, example_stroke ripple 5]
   \<and> handleRedo (handleUndo example_history) = example_history"
  using undo_redo_roundtrip[of example_history]
  by (simp add: example_history_simps)

section \<open>History moves and the redo buffer\<close>

lemma handlePointerDown_redo:
  "canvasRef s \<noteq> None \<Longrightarrow> redoStack (handlePointerDown e now s) = []"
  by (auto simp: handlePointerDown_def Let_def split: option.splits prod.splits)

lemma handlePointerMove_redo:
  "redoStack (handlePointerMove e now s) = redoStack s"
  by (auto simp: handlePointerMove_def Let_def split: option.splits prod.splits bool.splits)

lemma handlePointerUp_redo:
  "redoStack (handlePointerUp s) = redoStack s"
  by (auto simp: handlePointerUp_def Let_def split: option.splits bool.splits)

lemma moves_redo:
  "redoStack (foldl (\<lambda>s' (e, now). handlePointerMove e now s') s moves) = redoStack s"
  by (induction moves arbitrary: s) (auto simp: handlePointerMove_redo)

lemma capture_redo:
  "canvasRef s \<noteq> None \<Longrightarrow> redoStack (capture down moves s) = []"
  by (simp add: capture_def handlePointerUp_redo moves_redo handlePointerDown_redo)

lemma moves_idle:
  "\<not> isDrawing s \<Longrightarrow> foldl (\<lambda>s' (e, now). handlePointerMove e now s') s moves = s"
  by (induction moves) (auto simp: handlePointerMove_def)

lemma capture_unmounted:
  "canvasRef s = None \<Longrightarrow> \<not> isDrawing s \<Longrightarrow> capture down moves s = s"
  by (simp add: capture_def handlePointerDown_def moves_idle handlePointerUp_def)

text \<open>
  Claim C3, as amended.  Undo moves the last committed stroke to the end of the redo
  buffer, redo moves the last stroke of the redo buffer to the end of the committed
  list, and each leaves the state as it is when its source list is empty.  The
  pointer-down that starts a stroke on a mounted canvas empties the redo buffer,
  whatever the buffer held before; a pointer-move and a pointer-up leave the redo buffer
  as it is.  So a pass of the capture pipeline with nothing between its pointer-down
  and its pointer-up ends with an empty redo buffer, and on an idle component whose
  canvas is not mounted the pass changes nothing, so nothing is committed.
\<close>

theorem history_moves:
  "(strokes s \<noteq> [] \<longrightarrow>
        strokes (handleUndo s) = butlast (strokes s)
      \<and> redoStack (handleUndo s) = redoStack s @ [last (strokes s)])
   \<and> (strokes s = [] \<longrightarrow> handleUndo s = s)
   \<and> (redoStack s \<noteq> [] \<longrightarrow>
        redoStack (handleRedo s) = butlast (redoStack s)
      \<and> strokes (handleRedo s) = strokes s @ [last (redoStack s)])
   \<and> (redoStack s = [] \<longrightarrow> handleRedo s = s)
   \<and> (canvasRef s \<noteq> None \<longrightarrow> redoStack (handlePointerDown e now s) = [])
   \<and> redoStack (handlePointerMove e now s) = redoStack s
   \<and> redoStack (handlePointerUp s) = redoStack s
   \<and> (canvasRef s \<noteq> None \<longrightarrow> redoStack (capture down moves s) = [])
   \<and> (canvasRef s = None \<and> \<not> isDrawing s \<longrightarrow> capture down moves s = s)"
  by (simp add: handleUndo_def handleRedo_def capture_redo capture_unmounted
        handlePointerDown_redo handlePointerMove_redo handlePointerUp_redo)

lemma capture_example:
  "strokes (capture (example_event 0, 0) [(example_event 10, 20)] example_history) =
     [example_stroke ripple 2, example_stroke pulse 3,
      \<lparr> points = [\<lparr> point_x = 0, point_y = 0, pressure = 1, timestamp = 0 \<rparr>,
                  \<lparr> point_x = 7, point_y = 0, pressure = 1, timestamp = 20 \<rparr>],
        brush = ripple, color = [], stroke_size = 30 \<rparr>]"
  by (simp add: capture_def handlePointerDown_def handlePointerMove_def handlePointerUp_def
        smoothInput_def alpha_def example_history_def initial_state_def example_event_def
        example_canvas_def Let_def)

theorem history_moves_witness:
  "strokes example_history \<noteq> []
   \<and> strokes (handleUndo example_history) = [example_stroke ripple 2]
   \<and> redoStack (handleUndo example_history) =
        [example_stroke particle 4, example_stroke ripple 5, example_stroke pulse 3]
   \<and> strokes (initial_state None) = []
   \<and> handleUndo (initial_state None) = initial_state None
   \<and> redoStack example_history \<noteq> []
   \<and> redoStack (handleRedo example_history) = [example_stroke particle 4]
   \<and> strokes (handleRedo example_history) =
        [example_stroke ripple 2, example_stroke pulse 3, example_stroke ripple 5]
   \<and> redoStack (initial_state None) = []
   \<and> handleRedo (initial_state None) = initial_state None
   \<and> canvasRef example_history \<noteq> None
   \<and> length (redoStack example_history) = 2
   \<and> length (strokes (capture (example_event 0, 0) [(example_event 10, 20)] example_history)) = 3
   \<and> redoStack (capture (example_event 0, 0) [(example_event 10, 20)] example_history) = []
   \<and> redoStack (handlePointerDown (example_event 0) 0 example_history) = []
   \<and> canvasRef (initial_state None) = None
   \<and> \<not> isDrawing (initial_state None)
   \<and> capture (example_event 0, 0) [] (initial_state None) = initial_state None"
  using history_moves[where s = example_history and down = "(example_event 0, 0)"
          and moves = "[(example_event 10, 20)]" and e = "example_event 0" and now = 0]
        history_moves[where s = "initial_state None" and down = "(example_event 0, 0)"
          and moves = "[]" and e = "example_event 0" and now = 0]
  by (simp add: example_history_simps capture_example) (simp add: initial_state_def)

text \<open>
  Claim C3 as stated fails when an undo falls between the pointer-down and the
  pointer-up of a capture: the buffer was emptied at the pointer-down, the undo puts a
  stroke into it, and the pointer-up commits the new stroke without touching it.  The
  first run starts from a history of two committed and two undone strokes, the second
  from the initial state of the component.
\<close>

theorem undo_during_capture_counterexample:
  "strokes (run example_history
      [PointerDown (example_event 0) 0, PointerMove (example_event 10) 20, Undo, PointerUp])
     = [example_stroke ripple 2,
        \<lparr> points = [\<lparr> point_x = 0, point_y = 0, pressure = 1, timestamp = 0 \<rparr>,
                    \<lparr> point_x = 7, point_y = 0, pressure = 1, timestamp = 20 \<rparr>],
          brush = ripple, color = [], stroke_size = 30 \<rparr>]
   \<and> redoStack (run example_history
      [PointerDown (example_event 0) 0, PointerMove (example_event 10) 20, Undo, PointerUp])
     = [example_stroke pulse 3]
   \<and> length (strokes (run (initial_state (Some example_canvas))
      [PointerDown (example_event 0) 0, PointerMove (example_event 10) 20, PointerUp,
       PointerDown (example_event 0) 100, PointerMove (example_event 10) 120, Undo,
       PointerUp])) = 1
   \<and> redoStack (run (initial_state (Some example_canvas))
      [PointerDown (example_event 0) 0, PointerMove (example_event 10) 20, PointerUp,
       PointerDown (example_event 0) 100, PointerMove (example_event 10) 120, Undo,
       PointerUp]) \<noteq> []"
  by (simp add: run_def handlePointerDown_def handlePointerMove_def handlePointerUp_def
        handleUndo_def smoothInput_def alpha_def example_history_def initial_state_def
        example_event_def example_canvas_def Let_def)

section \<open>Adaptive sampling interval\<close>

lemma handlePointerMove_dropped:
  assumes "\<not> isDrawing s \<or> tempStroke s = None \<or> canvasRef s = None
           \<or> now - lastMoveTimeRef s < moveThrottleRef s"
  shows "handlePointerMove e now s = s"
  using assms by (auto simp: handlePointerMove_def split: option.splits bool.splits)

lemma handlePointerMove_accepted:
  assumes "isDrawing s" "tempStroke s = Some ts" "canvasRef s \<noteq> None"
          "\<not> now - lastMoveTimeRef s < moveThrottleRef s"
  shows "moveThrottleRef (handlePointerMove e now s) =
           (if length (points ts) > 100
               \<and> timestamp (points ts ! (length (points ts) - 1)) > now - 1000
            then min 32 (moveThrottleRef s + 2)
            else max 16 (moveThrottleRef s - 1))"
  using assms
  by (auto simp: handlePointerMove_def Let_def split: option.splits bool.splits prod.splits)

lemma handlePointerMove_interval:
  assumes "interval_in_range s"
  shows "interval_in_range (handlePointerMove e now s)"
proof (cases "isDrawing s \<and> tempStroke s \<noteq> None \<and> canvasRef s \<noteq> None
              \<and> \<not> now - lastMoveTimeRef s < moveThrottleRef s")
  case True
  then obtain ts where "tempStroke s = Some ts" by auto
  with True assms show ?thesis
    by (simp add: interval_in_range_def handlePointerMove_accepted[of s ts])
next
  case False
  then have "handlePointerMove e now s = s"
    by (intro handlePointerMove_dropped) auto
  with assms show ?thesis by simp
qed

lemma handlePointerUp_interval:
  "interval_in_range s \<Longrightarrow> interval_in_range (handlePointerUp s)"
  by (auto simp: interval_in_range_def handlePointerUp_def Let_def
           split: option.splits bool.splits)

lemma handlePointerDown_interval:
  "interval_in_range s \<Longrightarrow> interval_in_range (handlePointerDown e now s)"
  by (auto simp: interval_in_range_def handlePointerDown_def Let_def
           split: option.splits prod.splits)

lemma handle_interval:
  "interval_in_range s \<Longrightarrow> interval_in_range (handle s ev)"
  by (cases ev)
     (simp_all add: handlePointerDown_interval handlePointerMove_interval
        handlePointerUp_interval,
      simp_all add: interval_in_range_def handleUndo_def handleRedo_def handleClear_def)

lemma run_interval:
  "interval_in_range s \<Longrightarrow> interval_in_range (run s evs)"
  unfolding run_def
  by (induction evs arbitrary: s) (simp_all add: handle_interval)

lemma handlePointerUp_resets:
  "isDrawing s \<Longrightarrow> tempStroke s \<noteq> None \<Longrightarrow> moveThrottleRef (handlePointerUp s) = 16"
  by (auto simp: handlePointerUp_def Let_def split: option.splits bool.splits)

text \<open>
  Claim C4, as amended.  The sampling interval starts at 16 and stays within 16 and 32
  after every sequence of events.  A pointer-move that is accepted (a capture is
  active, the canvas is mounted and the sample does not arrive sooner than the interval
  after the last accepted one) raises the interval by 2, up to 32, when the stroke has
  more than 100 points and its last point is younger than 1000 ms, and lowers it by 1,
  down to 16, otherwise.  A pointer-move that is dropped leaves the whole state, and so
  the interval, unchanged.  The pointer-up that ends a capture resets the interval to 16.
\<close>

theorem sampling_interval_bounded:
  "moveThrottleRef (initial_state canvas) = 16
   \<and> (\<forall>evs. 16 \<le> moveThrottleRef (run (initial_state canvas) evs)
           \<and> moveThrottleRef (run (initial_state canvas) evs) \<le> 32)
   \<and> (16 \<le> moveThrottleRef s \<and> moveThrottleRef s \<le> 32 \<longrightarrow>
        16 \<le> moveThrottleRef (handlePointerMove e now s)
      \<and> moveThrottleRef (handlePointerMove e now s) \<le> 32)
   \<and> (isDrawing s \<and> tempStroke s = Some ts \<and> canvasRef s \<noteq> None
        \<and> \<not> now - lastMoveTimeRef s < moveThrottleRef s \<longrightarrow>
        moveThrottleRef (handlePointerMove e now s) =
          (if length (points ts) > 100
              \<and> timestamp (points ts ! (length (points ts) - 1)) > now - 1000
           then min 32 (moveThrottleRef s + 2)
           else max 16 (moveThrottleRef s - 1)))
   \<and> (\<not> isDrawing s \<or> tempStroke s = None \<or> canvasRef s = None
        \<or> now - lastMoveTimeRef s < moveThrottleRef s \<longrightarrow>
        handlePointerMove e now s = s)
   \<and> (isDrawing s \<and> tempStroke s \<noteq> None \<longrightarrow> moveThrottleRef (handlePointerUp s) = 16)"
proof -
  have init: "interval_in_range (initial_state canvas)"
    by (simp add: interval_in_range_def initial_state_def)
  have "\<forall>evs. 16 \<le> moveThrottleRef (run (initial_state canvas) evs)
           \<and> moveThrottleRef (run (initial_state canvas) evs) \<le> 32"
    using run_interval[OF init] by (simp add: interval_in_range_def)
  moreover have "moveThrottleRef (initial_state canvas) = 16"
    by (simp add: initial_state_def)
  moreover have "16 \<le> moveThrottleRef s \<and> moveThrottleRef s \<le> 32 \<longrightarrow>
        16 \<le> moveThrottleRef (handlePointerMove e now s)
      \<and> moveThrottleRef (handlePointerMove e now s) \<le> 32"
    using handlePointerMove_interval[of s e now] by (simp add: interval_in_range_def)
  ultimately show ?thesis
    using handlePointerMove_accepted[of s ts now e] handlePointerMove_dropped[of s now e]
          handlePointerUp_resets[of s]
    by blast
qed


lemma timestamp_example_stroke:
  "i < n \<Longrightarrow> timestamp (points (example_stroke b n) ! i) = 40 * int i"
  by (simp add: example_stroke_def example_point_def)

theorem sampling_interval_bounded_witness:
  "moveThrottleRef (handlePointerMove (example_event 5) 4040
      (capturing (example_stroke ripple 101))) = 18
   \<and> moveThrottleRef (handlePointerMove (example_event 5) 4040
      ((capturing (example_stroke ripple 101))\<lparr> moveThrottleRef := 31 \<rparr>)) = 32
   \<and> moveThrottleRef (handlePointerMove (example_event 5) 100
      ((capturing (example_stroke ripple 2))\<lparr> moveThrottleRef := 20 \<rparr>)) = 19
   \<and> moveThrottleRef (handlePointerMove (example_event 5) 100
      (capturing (example_stroke ripple 2))) = 16
   \<and> handlePointerMove (example_event 5) 5 (capturing (example_stroke ripple 2))
       = capturing (example_stroke ripple 2)
   \<and> moveThrottleRef (handlePointerUp
      ((capturing (example_stroke ripple 2))\<lparr> moveThrottleRef := 20 \<rparr>)) = 16
   \<and> 16 \<le> moveThrottleRef (run (initial_state (Some example_canvas))
               [PointerDown (example_event 0) 0, PointerMove (example_event 10) 20])
   \<and> moveThrottleRef (run (initial_state (Some example_canvas))
               [PointerDown (example_event 0) 0, PointerMove (example_event 10) 20]) \<le> 32"
  using sampling_interval_bounded[where canvas = "Some example_canvas"
          and s = "capturing (example_stroke ripple 101)" and ts = "example_stroke ripple 101"
          and now = 4040 and e = "example_event 5"]
        sampling_interval_bounded[where canvas = "Some example_canvas"
          and s = "(capturing (example_stroke ripple 101))\<lparr> moveThrottleRef := 31 \<rparr>"
          and ts = "example_stroke ripple 101" and now = 4040 and e = "example_event 5"]
        sampling_interval_bounded[where canvas = "Some example_canvas"
          and s = "(capturing (example_stroke ripple 2))\<lparr> moveThrottleRef := 20 \<rparr>"
          and ts = "example_stroke ripple 2" and now = 100 and e = "example_event 5"]
        sampling_interval_bounded[where canvas = "Some example_canvas"
          and s = "capturing (example_stroke ripple 2)" and ts = "example_stroke ripple 2"
          and now = 100 and e = "example_event 5"]
        sampling_interval_bounded[where canvas = "Some example_canvas"
          and s = "capturing (example_stroke ripple 2)" and ts = "example_stroke ripple 2"
          and now = 5 and e = "example_event 5"]
  by (simp add: capturing_simps length_example_stroke timestamp_example_stroke)

text \<open>
  Claim C4 as stated fails for a dropped sample: the stroke has 101 points and its last
  point is 5 ms old, but the sample arrives 5 ms after the last accepted one, is dropped,
  and the interval stays at 16 instead of growing to 18.
\<close>

theorem dropped_sample_counterexample:
  "length (points (example_stroke ripple 101)) > 100
   \<and> timestamp (points (example_stroke ripple 101) ! (length (points (example_stroke ripple 101)) - 1))
        > 4005 - 1000
   \<and> moveThrottleRef ((capturing (example_stroke ripple 101))\<lparr> lastMoveTimeRef := 4000 \<rparr>) = 16
   \<and> moveThrottleRef (handlePointerMove (example_event 5) 4005
         ((capturing (example_stroke ripple 101))\<lparr> lastMoveTimeRef := 4000 \<rparr>)) = 16
   \<and> moveThrottleRef (handlePointerMove (example_event 5) 4005
         ((capturing (example_stroke ripple 101))\<lparr> lastMoveTimeRef := 4000 \<rparr>))
       \<noteq> min 32 (moveThrottleRef
                   ((capturing (example_stroke ripple 101))\<lparr> lastMoveTimeRef := 4000 \<rparr>) + 2)"
  by (simp add: handlePointerMove_def capturing_simps length_example_stroke
        timestamp_example_stroke)

section \<open>Strokes with fewer than two points\<close>

lemma handlePointerUp_discard:
  assumes "isDrawing s" "tempStroke s = Some ts" "length (points ts) < 2"
  shows "strokes (handlePointerUp s) = strokes s"
    and "redoStack (handlePointerUp s) = redoStack s"
    and "tempStroke (handlePointerUp s) = None"
    and "\<not> isDrawing (handlePointerUp s)"
  using assms by (simp_all add: handlePointerUp_def Let_def)

lemma handlePointerUp_idle:
  assumes "\<not> isDrawing s \<or> tempStroke s = None"
  shows "handlePointerUp s = s"
  using assms by (auto simp: handlePointerUp_def split: option.splits bool.splits)

lemma handlePointerUp_history:
  assumes "history_drawn s"
  shows "history_drawn (handlePointerUp s)"
proof (cases "isDrawing s \<and> tempStroke s \<noteq> None")
  case False
  then show ?thesis using assms handlePointerUp_idle[of s] by auto
next
  case True
  then obtain ts where ts: "isDrawing s" "tempStroke s = Some ts" by auto
  show ?thesis
  proof (cases "1 < length (points ts)")
    case True
    have "2 \<le> length (points (if length (points ts) > 500
                        then ts\<lparr> points := simplify_points (points ts) \<rparr> else ts))"
      using True length_simplify_points_ge[of "points ts"] by auto
    then show ?thesis
      using assms handlePointerUp_commit[OF ts True] handlePointerUp_redo[of s]
      by (auto simp: history_drawn_def)
  next
    case False
    then have "length (points ts) < 2" by simp
    from handlePointerUp_discard(1,2)[OF ts this] assms show ?thesis
      by (simp add: history_drawn_def)
  qed
qed

lemma handlePointerDown_strokes:
  "strokes (handlePointerDown e now s) = strokes s"
  by (auto simp: handlePointerDown_def Let_def split: option.splits prod.splits)

lemma handlePointerDown_redo_subset:
  "set (redoStack (handlePointerDown e now s)) \<subseteq> set (redoStack s)"
  by (auto simp: handlePointerDown_def Let_def split: option.splits prod.splits)

lemma handlePointerMove_strokes:
  "strokes (handlePointerMove e now s) = strokes s"
  by (auto simp: handlePointerMove_def Let_def split: option.splits prod.splits bool.splits)

lemma handleUndo_history: "history_drawn s \<Longrightarrow> history_drawn (handleUndo s)"
  by (auto simp: history_drawn_def handleUndo_def dest: in_set_butlastD)

lemma handleRedo_history: "history_drawn s \<Longrightarrow> history_drawn (handleRedo s)"
  by (auto simp: history_drawn_def handleRedo_def dest: in_set_butlastD)

lemma handle_history: "history_drawn s \<Longrightarrow> history_drawn (handle s ev)"
proof (cases ev)
  case (PointerDown e now)
  assume "history_drawn s"
  then show ?thesis
    using handlePointerDown_redo_subset[of e now s]
    by (auto simp: PointerDown history_drawn_def handlePointerDown_strokes)
next
  case (PointerMove e now)
  assume "history_drawn s"
  then show ?thesis
    by (simp add: PointerMove history_drawn_def handlePointerMove_strokes handlePointerMove_redo)
qed (simp_all add: handlePointerUp_history handleUndo_history handleRedo_history,
     simp_all add: history_drawn_def handleClear_def)

lemma run_history: "history_drawn s \<Longrightarrow> history_drawn (run s evs)"
  unfolding run_def
  by (induction evs arbitrary: s) (simp_all add: handle_history)

text \<open>
  Claim C6.  Ending a capture whose stroke has fewer than 2 points discards the stroke:
  the committed list is unchanged and the session is gone.  A pointer-up with no active
  capture changes nothing at all.  Hence in every state the component reaches from its
  initial state, every committed stroke has at least 2 points.
\<close>

theorem short_strokes_never_committed:
  "(isDrawing s \<and> tempStroke s = Some ts \<and> length (points ts) < 2 \<longrightarrow>
        strokes (handlePointerUp s) = strokes s
      \<and> tempStroke (handlePointerUp s) = None \<and> \<not> isDrawing (handlePointerUp s))
   \<and> (\<not> isDrawing s \<or> tempStroke s = None \<longrightarrow> handlePointerUp s = s)
   \<and> (\<forall>evs. \<forall>st \<in> set (strokes (run (initial_state canvas) evs)). 2 \<le> length (points st))"
proof -
  have "history_drawn (initial_state canvas)"
    by (simp add: history_drawn_def initial_state_def)
  then have "\<forall>evs. \<forall>st \<in> set (strokes (run (initial_state canvas) evs)). 2 \<le> length (points st)"
    using run_history[of "initial_state canvas"] by (auto simp: history_drawn_def)
  then show ?thesis
    using handlePointerUp_discard[of s ts] handlePointerUp_idle[of s] by blast
qed

lemma run_tap:
  "strokes (run (initial_state (Some example_canvas))
      [PointerDown (example_event 0) 0, PointerUp]) = []"
  by (simp add: run_def handlePointerDown_def handlePointerUp_def smoothInput_def
        initial_state_def example_event_def example_canvas_def Let_def)

lemma run_two_points:
  "strokes (run (initial_state (Some example_canvas))
      [PointerDown (example_event 0) 0, PointerMove (example_event 10) 20, PointerUp]) =
     [\<lparr> points = [\<lparr> point_x = 0, point_y = 0, pressure = 1, timestamp = 0 \<rparr>,
                 \<lparr> point_x = 7, point_y = 0, pressure = 1, timestamp = 20 \<rparr>],
        brush = ripple, color = [], stroke_size = 30 \<rparr>]"
  by (simp add: run_def handlePointerDown_def handlePointerMove_def handlePointerUp_def
        smoothInput_def alpha_def initial_state_def example_event_def example_canvas_def Let_def)

theorem short_strokes_never_committed_witness:
  "isDrawing (example_history\<lparr> isDrawing := True, tempStroke := Some (example_stroke ripple 1) \<rparr>)
   \<and> length (points (example_stroke ripple 1)) < 2
   \<and> strokes (handlePointerUp
        (example_history\<lparr> isDrawing := True, tempStroke := Some (example_stroke ripple 1) \<rparr>))
       = [example_stroke ripple 2, example_stroke pulse 3]
   \<and> tempStroke (handlePointerUp
        (example_history\<lparr> isDrawing := True, tempStroke := Some (example_stroke ripple 1) \<rparr>))
       = None
   \<and> \<not> isDrawing example_history
   \<and> handlePointerUp example_history = example_history
   \<and> strokes (run (initial_state (Some example_canvas))
        [PointerDown (example_event 0) 0, PointerUp]) = []
   \<and> length (strokes (run (initial_state (Some example_canvas))
        [PointerDown (example_event 0) 0, PointerMove (example_event 10) 20, PointerUp])) = 1
   \<and> 2 \<le> length (points (hd (strokes (run (initial_state (Some example_canvas))
        [PointerDown (example_event 0) 0, PointerMove (example_event 10) 20, PointerUp]))))"
  using short_strokes_never_committed[where
          s = "example_history\<lparr> isDrawing := True, tempStroke := Some (example_stroke ripple 1) \<rparr>"
          and ts = "example_stroke ripple 1" and canvas = "Some example_canvas"]
        short_strokes_never_committed[where s = example_history
          and ts = "example_stroke ripple 1" and canvas = "Some example_canvas"]
  by (simp add: example_history_simps length_example_stroke run_tap run_two_points)

section \<open>Input smoother\<close>

text \<open>
  Claim C5.  With the reference reset, \<open>smoothInput\<close> returns the raw point and the
  pressure as given and records the raw point as the reference.  With a reference \<open>r\<close>
  it returns \<open>0.7 \<cdot> raw + 0.3 \<cdot> r\<close> on each axis, with the pressure as given, and records
  the smoothed point as the reference.  After any call the reference is set, so every
  later call of the stroke smooths.
\<close>

theorem smoothInput_contract:
  "smoothInput None point pr =
      (\<lparr> sx = px point, sy = py point, spressure = pr \<rparr>, Some point)
   \<and> smoothInput (Some r) point pr =
      (\<lparr> sx = 0.7 * px point + 0.3 * px r, sy = 0.7 * py point + 0.3 * py r,
         spressure = pr \<rparr>,
       Some \<lparr> px = 0.7 * px point + 0.3 * px r, py = 0.7 * py point + 0.3 * py r \<rparr>)
   \<and> (\<exists>r'. snd (smoothInput ref point pr) = Some r')"
  by (cases ref) (simp_all add: smoothInput_def alpha_def Let_def)

end
